theory Spec2Isabelle
  imports Main "HOL-Library.AList"
begin

section \<open>Values: keys, rows and schemas\<close>

text \<open>
  The transaction journal \<^verbatim>\<open>lf.cache.Journal\<close> (lib/cache/journal.js) drives a row
  cache, an index store and one \<^verbatim>\<open>lf.cache.TableDiff\<close> per table. Rows, schemas, cache,
  indices and the table diff are collaborators whose code is not part of
  journal.js; each is modelled below from the interface the specification gives.

  Index keys are strings. On two strings, and on a string and \<^verbatim>\<open>null\<close>, JavaScript's
  \<^verbatim>\<open>!=\<close> is plain inequality, which is inequality of \<open>key option\<close> here.
\<close>

type_synonym key = string

text \<open>
  Modelled from the spec: \<^verbatim>\<open>lf.Row\<close> (spec 3 and 6). A row reports its row-id
  (\<^verbatim>\<open>id()\<close>), lets it be reassigned (\<^verbatim>\<open>setRowId\<close>) and projects a key for a normalized
  index name (\<^verbatim>\<open>keyOfIndex(name)\<close>, which yields a key). The payload stands for
  the column values, so that two images of one row can differ.
\<close>

record row =
  row_id :: nat
  payload :: string
  keyOfIndex :: "string \<Rightarrow> key"

text \<open>Modelled from the spec: \<^verbatim>\<open>lf.Row.setRowId\<close> (spec 3): the row-id is reassigned.\<close>

definition setRowId :: "row \<Rightarrow> nat \<Rightarrow> row" where
  "setRowId r i = r\<lparr>row_id := i\<rparr>"

text \<open>
  Modelled from the spec: \<^verbatim>\<open>lf.schema.Index\<close> and \<^verbatim>\<open>lf.schema.Table\<close> (spec 6):
  \<^verbatim>\<open>getName()\<close>, \<^verbatim>\<open>getConstraint().getPrimaryKey()\<close> (null when the table declares
  none) and \<^verbatim>\<open>getIndices()\<close>.
\<close>

datatype indexSchema = IndexSchema (getNormalizedName: string)

text \<open>
  Modelled from the spec: \<^verbatim>\<open>lf.schema.Table\<close> (spec 6), with \<open>getPrimaryKey\<close> for
  \<^verbatim>\<open>getConstraint().getPrimaryKey()\<close>.
\<close>

record table =
  table_getName :: string
  getPrimaryKey :: "indexSchema option"
  getIndices :: "indexSchema list"

text \<open>
  The failures of the journal. \<^verbatim>\<open>SCOPE_ERROR\<close> and \<^verbatim>\<open>CONSTRAINT\<close> are the two
  \<^verbatim>\<open>lf.Exception\<close> types journal.js throws, with their messages.
  \<^verbatim>\<open>ASSERTION\<close> is a failed \<^verbatim>\<open>goog.asserts.assert\<close> (assertions enabled).
  \<^verbatim>\<open>TYPE_ERROR\<close> is a method call on \<^verbatim>\<open>null\<close>; \<^verbatim>\<open>INVALID_DIFF\<close> is a table-diff
  operation on a cell that the specification's merge table marks invalid.
\<close>

datatype error =
    SCOPE_ERROR string
  | CONSTRAINT string
  | ASSERTION string
  | TYPE_ERROR
  | INVALID_DIFF

section \<open>Collaborators\<close>

subsection \<open>Index and index store\<close>

text \<open>
  Modelled from the spec: \<^verbatim>\<open>lf.index.Index\<close> (spec 6): \<^verbatim>\<open>get(key)\<close>,
  \<^verbatim>\<open>getRange(keyRange?)\<close> (an absent range means the whole index),
  \<^verbatim>\<open>set(key, rowId)\<close>, \<^verbatim>\<open>remove(key, rowId)\<close> and \<^verbatim>\<open>getName()\<close>. An index is
  its name and its (key, row-id) entries, in the order they were set. A key
  range is the predicate that tells which keys it admits.
\<close>

type_synonym keyRange = "key \<Rightarrow> bool"

text \<open>Modelled from the spec: the state of an \<^verbatim>\<open>lf.index.Index\<close> (spec 6).\<close>

record index =
  index_getName :: string
  entries :: "(key \<times> nat) list"

text \<open>
  Modelled from the spec: \<^verbatim>\<open>Index.get(key)\<close> (spec 6), the row-ids listed under
  the key.
\<close>

definition index_get :: "index \<Rightarrow> key \<Rightarrow> nat list" where
  "index_get idx k = map snd (filter (\<lambda>e. fst e = k) (entries idx))"

text \<open>
  Modelled from the spec: \<^verbatim>\<open>Index.getRange(keyRange?)\<close> (spec 6), the row-ids
  whose key the range admits; the whole index when the range is absent.
\<close>

definition index_getRange :: "index \<Rightarrow> keyRange option \<Rightarrow> nat list" where
  "index_getRange idx opt_keyRange =
     (case opt_keyRange of
        None \<Rightarrow> map snd (entries idx)
      | Some r \<Rightarrow> map snd (filter (\<lambda>e. r (fst e)) (entries idx)))"

text \<open>
  Modelled from the spec: \<^verbatim>\<open>Index.set(key, rowId)\<close> (spec 6); setting an entry
  the index already holds changes nothing.
\<close>

definition index_set :: "index \<Rightarrow> key \<Rightarrow> nat \<Rightarrow> index" where
  "index_set idx k i =
     (if (k, i) \<in> set (entries idx) then idx
      else idx\<lparr>entries := entries idx @ [(k, i)]\<rparr>)"

text \<open>Modelled from the spec: \<^verbatim>\<open>Index.remove(key, rowId)\<close> (spec 6).\<close>

definition index_remove :: "index \<Rightarrow> key \<Rightarrow> nat \<Rightarrow> index" where
  "index_remove idx k i = idx\<lparr>entries := removeAll (k, i) (entries idx)\<rparr>"

text \<open>
  Modelled from the spec: \<^verbatim>\<open>lf.index.IndexStore\<close> (spec 6):
  \<^verbatim>\<open>get(normalizedIndexName)\<close> yields an index, and \<^verbatim>\<open>getRowIdIndex(tableName)\<close>
  yields the always-present row-id index of a table. The store maps each
  reference, by index name or as the row-id index of a table, to an index.
\<close>

datatype indexRef = Named string | RowIdIndex string

type_synonym indexStore = "indexRef \<Rightarrow> index"

text \<open>Modelled from the spec: \<^verbatim>\<open>IndexStore.get(normalizedIndexName)\<close> (spec 6).\<close>

definition indexStore_get :: "indexStore \<Rightarrow> string \<Rightarrow> index" where
  "indexStore_get st n = st (Named n)"

text \<open>Modelled from the spec: \<^verbatim>\<open>IndexStore.getRowIdIndex(tableName)\<close> (spec 6).\<close>

definition getRowIdIndex :: "indexStore \<Rightarrow> string \<Rightarrow> index" where
  "getRowIdIndex st t = st (RowIdIndex t)"

subsection \<open>Row cache\<close>

text \<open>
  Modelled from the spec: \<^verbatim>\<open>lf.cache.Cache\<close> (spec 6): \<^verbatim>\<open>get(rowIds)\<close> is
  position-preserving with null for an absent row, \<^verbatim>\<open>set(rows)\<close> inserts or
  overwrites by row-id, \<^verbatim>\<open>remove(rowIds)\<close> deletes.
\<close>

type_synonym cache = "nat \<Rightarrow> row option"

text \<open>Modelled from the spec: \<^verbatim>\<open>Cache.get(rowIds)\<close> (spec 6).\<close>

definition cache_get :: "cache \<Rightarrow> nat list \<Rightarrow> row option list" where
  "cache_get c rowIds = map c rowIds"

text \<open>Modelled from the spec: \<^verbatim>\<open>Cache.set(rows)\<close> (spec 6).\<close>

definition cache_set :: "cache \<Rightarrow> row list \<Rightarrow> cache" where
  "cache_set c rows = fold (\<lambda>r c'. c'(row_id r \<mapsto> r)) rows c"

text \<open>Modelled from the spec: \<^verbatim>\<open>Cache.remove(rowIds)\<close> (spec 6).\<close>

definition cache_remove :: "cache \<Rightarrow> nat list \<Rightarrow> cache" where
  "cache_remove c rowIds = fold (\<lambda>i c'. c'(i := None)) rowIds c"

subsection \<open>Closure sets\<close>

text \<open>
  \<^verbatim>\<open>goog.structs.Set\<close>: \<^verbatim>\<open>add\<close> ignores a value that is already a member,
  \<^verbatim>\<open>getValues\<close> lists the members in insertion order, \<^verbatim>\<open>getCount\<close> counts them.
  \<^verbatim>\<open>goog.structs.Map\<close> is an association list handled with \<open>map_of\<close>,
  \<open>AList.update\<close> (replace in place, or append a new key) and \<open>AList.delete\<close>.
\<close>

definition gset_add :: "'a list \<Rightarrow> 'a \<Rightarrow> 'a list" where
  "gset_add xs x = (if x \<in> set xs then xs else xs @ [x])"

definition gset_addAll :: "'a list \<Rightarrow> 'a list \<Rightarrow> 'a list" where
  "gset_addAll xs ys = fold (\<lambda>y acc. gset_add acc y) ys xs"

definition gset_getCount :: "'a list \<Rightarrow> nat" where
  "gset_getCount xs = length xs"

subsection \<open>Table diff\<close>

text \<open>
  Modelled from the spec: \<^verbatim>\<open>lf.cache.TableDiff\<close> (spec 3 and 4.1). Three
  collections keyed by row-id: added rows, modified (old, new) pairs and
  deleted rows. \<^verbatim>\<open>add\<close>, \<^verbatim>\<open>modify\<close> and \<^verbatim>\<open>delete\<close> follow the merge table of
  spec 3, cell by cell; a cell marked invalid yields \<open>None\<close>. In the cell
  "delete(d) then add(n), n == d" the two operations cancel and the entry
  disappears. \<^verbatim>\<open>modify\<close> needs \<^verbatim>\<open>old.id == new.id\<close>.
\<close>

record tableDiff =
  added :: "(nat \<times> row) list"
  modified :: "(nat \<times> (row \<times> row)) list"
  deleted :: "(nat \<times> row) list"

text \<open>Modelled from the spec: a new \<^verbatim>\<open>TableDiff\<close>, with nothing recorded.\<close>

definition emptyDiff :: tableDiff where
  "emptyDiff = \<lparr>added = [], modified = [], deleted = []\<rparr>"

text \<open>
  Modelled from the spec: \<^verbatim>\<open>TableDiff.add(row)\<close>, the column "add" of the merge
  table (spec 3): invalid on an added or modified row-id; on a deleted one
  the entry disappears when the row is the deleted image and becomes
  modify(deleted, row) otherwise.
\<close>

definition tableDiff_add :: "tableDiff \<Rightarrow> row \<Rightarrow> tableDiff option" where
  "tableDiff_add d r =
     (let i = row_id r in
      if map_of (added d) i \<noteq> None then None
      else if map_of (modified d) i \<noteq> None then None
      else (case map_of (deleted d) i of
              Some old \<Rightarrow>
                if r = old then Some (d\<lparr>deleted := AList.delete i (deleted d)\<rparr>)
                else Some (d\<lparr>deleted := AList.delete i (deleted d),
                            modified := AList.update i (old, r) (modified d)\<rparr>)
            | None \<Rightarrow> Some (d\<lparr>added := AList.update i r (added d)\<rparr>)))"

text \<open>
  Modelled from the spec: \<^verbatim>\<open>TableDiff.modify(old, new)\<close>, the column "modify" of
  the merge table (spec 3), with \<^verbatim>\<open>old.id == new.id\<close> required (spec 4.1): an
  added row takes the new image, a modified one keeps its first old image,
  a deleted one is invalid.
\<close>

definition tableDiff_modify :: "tableDiff \<Rightarrow> row \<times> row \<Rightarrow> tableDiff option" where
  "tableDiff_modify d m =
     (let old = fst m; new = snd m; i = row_id old in
      if row_id old \<noteq> row_id new then None
      else if map_of (added d) i \<noteq> None
        then Some (d\<lparr>added := AList.update i new (added d)\<rparr>)
      else (case map_of (modified d) i of
              Some (old1, new1) \<Rightarrow>
                Some (d\<lparr>modified := AList.update i (old1, new) (modified d)\<rparr>)
            | None \<Rightarrow>
                if map_of (deleted d) i \<noteq> None then None
                else Some (d\<lparr>modified := AList.update i (old, new) (modified d)\<rparr>)))"

text \<open>
  Modelled from the spec: \<^verbatim>\<open>TableDiff.delete(row)\<close>, the column "delete" of the
  merge table (spec 3): an added row is removed entirely, a modified one
  becomes delete(first old image), a deleted one is invalid.
\<close>

definition tableDiff_delete :: "tableDiff \<Rightarrow> row \<Rightarrow> tableDiff option" where
  "tableDiff_delete d r =
     (let i = row_id r in
      if map_of (added d) i \<noteq> None
        then Some (d\<lparr>added := AList.delete i (added d)\<rparr>)
      else (case map_of (modified d) i of
              Some (old1, new1) \<Rightarrow>
                Some (d\<lparr>modified := AList.delete i (modified d),
                       deleted := AList.update i old1 (deleted d)\<rparr>)
            | None \<Rightarrow>
                if map_of (deleted d) i \<noteq> None then None
                else Some (d\<lparr>deleted := AList.update i r (deleted d)\<rparr>)))"

text \<open>A loop over a collection that stops at the first invalid operation.\<close>

fun foldDiff :: "(tableDiff \<Rightarrow> 'a \<Rightarrow> tableDiff option) \<Rightarrow> 'a list \<Rightarrow> tableDiff
    \<Rightarrow> tableDiff option" where
  "foldDiff f [] d = Some d"
| "foldDiff f (x # xs) d = (case f d x of None \<Rightarrow> None | Some d' \<Rightarrow> foldDiff f xs d')"

text \<open>
  Modelled from the spec: \<^verbatim>\<open>TableDiff.merge(other)\<close> (spec 4.1) folds the
  operations of \<open>other\<close> into the diff: its added rows, then its
  modifications, then its deleted rows.
\<close>

definition tableDiff_merge :: "tableDiff \<Rightarrow> tableDiff \<Rightarrow> tableDiff option" where
  "tableDiff_merge self other =
     (case foldDiff tableDiff_add (map snd (added other)) self of
        None \<Rightarrow> None
      | Some d1 \<Rightarrow>
          (case foldDiff tableDiff_modify (map snd (modified other)) d1 of
             None \<Rightarrow> None
           | Some d2 \<Rightarrow> foldDiff tableDiff_delete (map snd (deleted other)) d2))"

text \<open>
  Modelled from the spec: \<^verbatim>\<open>TableDiff.getReverse()\<close> (spec 3) swaps added and
  deleted, and the pair of each modification; it builds a new diff.
\<close>

definition tableDiff_getReverse :: "tableDiff \<Rightarrow> tableDiff" where
  "tableDiff_getReverse d =
     \<lparr>added = deleted d,
      modified = map (\<lambda>(i, (old, new)). (i, (new, old))) (modified d),
      deleted = added d\<rparr>"

section \<open>The journal\<close>

text \<open>
  The state of \<^verbatim>\<open>lf.cache.Journal\<close>: its fields \<^verbatim>\<open>scope_\<close>, \<^verbatim>\<open>terminated_\<close> and
  \<^verbatim>\<open>tableDiffs_\<close>, and the shared cache and index store that \<^verbatim>\<open>cache_\<close> and
  \<^verbatim>\<open>indexStore_\<close> refer to, held in the record since the journal is what
  mutates them. An operation returns its outcome and the state it leaves; a
  failed operation returns the state at the point of the failure.
\<close>

record journal =
  scope :: "(string \<times> table) list"
  cache :: cache
  indexStore :: indexStore
  terminated :: bool
  tableDiffs :: "(string \<times> tableDiff) list"

type_synonym 'a result = "(error + 'a) \<times> journal"

definition Journal :: "table list \<Rightarrow> cache \<Rightarrow> indexStore \<Rightarrow> journal" where
  "Journal sc c st =
     \<lparr>scope = fold (\<lambda>tableSchema m. AList.update (table_getName tableSchema) tableSchema m) sc [],
      cache = c, indexStore = st, terminated = False, tableDiffs = []\<rparr>"

definition getDiff :: "journal \<Rightarrow> (string \<times> tableDiff) list" where
  "getDiff s = tableDiffs s"

definition getScope :: "journal \<Rightarrow> (string \<times> table) list" where
  "getScope s = scope s"

subsection \<open>Reads\<close>

definition getIndexRange :: "journal \<Rightarrow> indexSchema \<Rightarrow> keyRange list \<Rightarrow> nat list" where
  "getIndexRange s indexSchema keyRanges =
     (let idx = indexStore_get (indexStore s) (getNormalizedName indexSchema)
      in fold (\<lambda>keyRange rowIds. gset_addAll rowIds (index_getRange idx (Some keyRange)))
           keyRanges [])"

definition getTableRows :: "journal \<Rightarrow> string \<Rightarrow> nat list option \<Rightarrow> row option list" where
  "getTableRows s tableName opt_rowIds =
     (let rowIds = (case opt_rowIds of
                      Some ids \<Rightarrow> ids
                    | None \<Rightarrow> index_getRange (getRowIdIndex (indexStore s) tableName) None)
      in cache_get (cache s) rowIds)"

subsection \<open>Checks\<close>

text \<open>The checks only read the state: each yields the exception it throws, if any.\<close>

definition checkScope :: "journal \<Rightarrow> table \<Rightarrow> error option" where
  "checkScope s tableSchema =
     (if map_of (scope s) (table_getName tableSchema) = None
      then Some (SCOPE_ERROR (table_getName tableSchema @ '' is not in the journal's scope.''))
      else None)"

definition findExistingRowIdInPkIndex :: "journal \<Rightarrow> table \<Rightarrow> row \<Rightarrow> nat option" where
  "findExistingRowIdInPkIndex s t r =
     (case getPrimaryKey t of
        None \<Rightarrow> None
      | Some pkIndexSchema \<Rightarrow>
          (let pkIndexName = getNormalizedName pkIndexSchema;
               primaryKey = keyOfIndex r pkIndexName;
               pkIndex = indexStore_get (indexStore s) pkIndexName;
               rowIds = index_get pkIndex primaryKey
           in (case rowIds of [] \<Rightarrow> None | i # _ \<Rightarrow> Some i)))"

definition checkPrimaryKeyExistence :: "journal \<Rightarrow> table \<Rightarrow> row list \<Rightarrow> error option" where
  "checkPrimaryKeyExistence s t rows =
     (case getPrimaryKey t of
        None \<Rightarrow> None
      | Some pkIndexSchema \<Rightarrow>
          (case find (\<lambda>r. findExistingRowIdInPkIndex s t r \<noteq> None) rows of
             None \<Rightarrow> None
           | Some r \<Rightarrow>
               Some (CONSTRAINT (''A row with primary key '' @
                 keyOfIndex r (getNormalizedName pkIndexSchema) @ '' already exists '' @
                 '' in table '' @ table_getName t))))"

definition checkPrimaryKeysUnique :: "table \<Rightarrow> row list \<Rightarrow> error option" where
  "checkPrimaryKeysUnique t rows =
     (case getPrimaryKey t of
        None \<Rightarrow> None
      | Some pkIndexSchema \<Rightarrow>
          (let primaryKeys =
                 fold (\<lambda>r ks. gset_add ks (keyOfIndex r (getNormalizedName pkIndexSchema))) rows []
           in if gset_getCount primaryKeys < length rows
              then Some (CONSTRAINT (''Primary key violation when inserting rows to '' @
                     table_getName t))
              else None))"

definition checkPrimaryKeyUpdate :: "journal \<Rightarrow> table \<Rightarrow> row list \<Rightarrow> error option" where
  "checkPrimaryKeyUpdate s t rows =
     (let primaryKeyModified =
            list_ex (\<lambda>updatedRow.
              findExistingRowIdInPkIndex s t updatedRow \<noteq> Some (row_id updatedRow)) rows
      in if \<not> primaryKeyModified then None
         else if length rows > 1
           then Some (CONSTRAINT (''Primary key violation when updating rows for '' @
                  table_getName t))
         else (case rows of
                 [] \<Rightarrow> None
               | r0 # _ \<Rightarrow> checkPrimaryKeyExistence s t [r0]))"

subsection \<open>Applying a diff\<close>

text \<open>
  \<^verbatim>\<open>updateTableIndices_\<close> builds the snapshot of (now, then) pairs (deleted,
  modified, added), lists the table's indices with its row-id index last,
  and applies every pair to every index. \<^verbatim>\<open>applyTableDiff_\<close> updates the
  indices and the cache, files the accumulated diff of the table (a new one
  if there was none) and merges the diff into it; a merge that meets an
  invalid cell fails there, after the indices and the cache were written.
\<close>

text \<open>
  One (now, then) pair of the snapshot against one index: the keys are
  projected with the index's own name, and the index changes only when they
  differ.
\<close>

definition updateIndexPair :: "index \<Rightarrow> row option \<times> row option \<Rightarrow> index" where
  "updateIndexPair idx pair =
     (let keyNow = map_option (\<lambda>r. keyOfIndex r (index_getName idx)) (fst pair);
          keyThen = map_option (\<lambda>r. keyOfIndex r (index_getName idx)) (snd pair)
      in if keyNow \<noteq> keyThen then
           (let idx1 = (case snd pair of
                          None \<Rightarrow> idx
                        | Some r \<Rightarrow> index_remove idx (keyOfIndex r (index_getName idx)) (row_id r));
                idx2 = (case fst pair of
                          None \<Rightarrow> idx1
                        | Some r \<Rightarrow> index_set idx1 (keyOfIndex r (index_getName idx)) (row_id r))
            in idx2)
         else idx)"

definition diffSnapshot :: "tableDiff \<Rightarrow> (row option \<times> row option) list" where
  "diffSnapshot d =
     map (\<lambda>r. (None, Some r)) (map snd (deleted d)) @
     map (\<lambda>m. (Some (snd m), Some (fst m))) (map snd (modified d)) @
     map (\<lambda>r. (Some r, None)) (map snd (added d))"

definition tableIndexRefs :: "table \<Rightarrow> indexRef list" where
  "tableIndexRefs t =
     map (\<lambda>indexSchema. Named (getNormalizedName indexSchema)) (getIndices t) @
     [RowIdIndex (table_getName t)]"

definition updateTableIndices :: "journal \<Rightarrow> table \<Rightarrow> tableDiff \<Rightarrow> journal" where
  "updateTableIndices s t d =
     s\<lparr>indexStore :=
         fold (\<lambda>ref st. st(ref := fold (\<lambda>pair idx. updateIndexPair idx pair) (diffSnapshot d) (st ref)))
           (tableIndexRefs t) (indexStore s)\<rparr>"

definition updateCache :: "journal \<Rightarrow> tableDiff \<Rightarrow> journal" where
  "updateCache s d =
     (let c1 = fold (\<lambda>r c. cache_remove c [row_id r]) (map snd (deleted d)) (cache s);
          c2 = fold (\<lambda>r c. cache_set c [r]) (map snd (added d)) c1;
          c3 = fold (\<lambda>m c. cache_set c [snd m]) (map snd (modified d)) c2
      in s\<lparr>cache := c3\<rparr>)"

definition applyTableDiff :: "journal \<Rightarrow> table \<Rightarrow> tableDiff \<Rightarrow> unit result" where
  "applyTableDiff s t d =
     (let s1 = updateTableIndices s t d;
          s2 = updateCache s1 d;
          accumulativeTableDiff =
            (case map_of (tableDiffs s2) (table_getName t) of
               Some acc \<Rightarrow> acc
             | None \<Rightarrow> emptyDiff);
          s3 = s2\<lparr>tableDiffs :=
                 AList.update (table_getName t) accumulativeTableDiff (tableDiffs s2)\<rparr>
      in (case tableDiff_merge accumulativeTableDiff d of
            None \<Rightarrow> (Inl INVALID_DIFF, s3)
          | Some merged \<Rightarrow>
              (Inr (), s3\<lparr>tableDiffs :=
                          AList.update (table_getName t) merged (tableDiffs s3)\<rparr>)))"

subsection \<open>Mutations\<close>

definition journal_insert :: "journal \<Rightarrow> table \<Rightarrow> row list \<Rightarrow> unit result" where
  "journal_insert s t rows =
     (case checkScope s t of
        Some e \<Rightarrow> (Inl e, s)
      | None \<Rightarrow>
     (case checkPrimaryKeysUnique t rows of
        Some e \<Rightarrow> (Inl e, s)
      | None \<Rightarrow>
     (case checkPrimaryKeyExistence s t rows of
        Some e \<Rightarrow> (Inl e, s)
      | None \<Rightarrow>
     (case foldDiff tableDiff_add rows emptyDiff of
        None \<Rightarrow> (Inl INVALID_DIFF, s)
      | Some d \<Rightarrow> applyTableDiff s t d))))"

text \<open>
  The loop of \<^verbatim>\<open>update\<close>: the old image is what the cache holds under the row's
  id; \<^verbatim>\<open>modify\<close> on a null old image is a call on null.
\<close>

fun updateRows :: "journal \<Rightarrow> row list \<Rightarrow> tableDiff \<Rightarrow> error + tableDiff" where
  "updateRows s [] d = Inr d"
| "updateRows s (r # rows) d =
     (case cache s (row_id r) of
        None \<Rightarrow> Inl TYPE_ERROR
      | Some oldRow \<Rightarrow>
          (case tableDiff_modify d (oldRow, r) of
             None \<Rightarrow> Inl INVALID_DIFF
           | Some d' \<Rightarrow> updateRows s rows d'))"

definition journal_update :: "journal \<Rightarrow> table \<Rightarrow> row list \<Rightarrow> unit result" where
  "journal_update s t rows =
     (case checkScope s t of
        Some e \<Rightarrow> (Inl e, s)
      | None \<Rightarrow>
     (case checkPrimaryKeyUpdate s t rows of
        Some e \<Rightarrow> (Inl e, s)
      | None \<Rightarrow>
     (case updateRows s rows emptyDiff of
        Inl e \<Rightarrow> (Inl e, s)
      | Inr d \<Rightarrow> applyTableDiff s t d)))"

text \<open>
  One row of the loop of \<^verbatim>\<open>insertOrReplace\<close>: the row takes the id of the row
  that holds its primary key, if there is one.
\<close>

definition insertOrReplaceRow :: "journal \<Rightarrow> table \<Rightarrow> tableDiff \<Rightarrow> row \<Rightarrow> error + tableDiff" where
  "insertOrReplaceRow s t d r =
     (case findExistingRowIdInPkIndex s t r of
        Some existingRowId \<Rightarrow>
          (case cache s existingRowId of
             None \<Rightarrow> Inl TYPE_ERROR
           | Some oldRow \<Rightarrow>
               (case tableDiff_modify d (oldRow, setRowId r existingRowId) of
                  None \<Rightarrow> Inl INVALID_DIFF
                | Some d' \<Rightarrow> Inr d'))
      | None \<Rightarrow>
          (case tableDiff_add d r of
             None \<Rightarrow> Inl INVALID_DIFF
           | Some d' \<Rightarrow> Inr d'))"

fun insertOrReplaceRows :: "journal \<Rightarrow> table \<Rightarrow> row list \<Rightarrow> tableDiff \<Rightarrow> error + tableDiff" where
  "insertOrReplaceRows s t [] d = Inr d"
| "insertOrReplaceRows s t (r # rows) d =
     (case insertOrReplaceRow s t d r of
        Inl e \<Rightarrow> Inl e
      | Inr d' \<Rightarrow> insertOrReplaceRows s t rows d')"

definition journal_insertOrReplace :: "journal \<Rightarrow> table \<Rightarrow> row list \<Rightarrow> unit result" where
  "journal_insertOrReplace s t rows =
     (case checkScope s t of
        Some e \<Rightarrow> (Inl e, s)
      | None \<Rightarrow>
     (case insertOrReplaceRows s t rows emptyDiff of
        Inl e \<Rightarrow> (Inl e, s)
      | Inr d \<Rightarrow> applyTableDiff s t d))"

definition journal_remove :: "journal \<Rightarrow> table \<Rightarrow> row list \<Rightarrow> unit result" where
  "journal_remove s t rows =
     (case checkScope s t of
        Some e \<Rightarrow> (Inl e, s)
      | None \<Rightarrow>
     (case foldDiff tableDiff_delete rows emptyDiff of
        None \<Rightarrow> (Inl INVALID_DIFF, s)
      | Some d \<Rightarrow> applyTableDiff s t d))"

subsection \<open>Commit and rollback\<close>

definition journal_commit :: "journal \<Rightarrow> unit result" where
  "journal_commit s =
     (if terminated s
      then (Inl (ASSERTION ''Attemptted to commit a terminated journal.''), s)
      else (Inr (), s\<lparr>terminated := True\<rparr>))"

text \<open>
  The loop of \<^verbatim>\<open>rollback\<close> over the accumulated diffs, in the order of the map.
  The schema comes from the scope; a name the scope does not hold gives a
  null schema, and updating its indices is a call on null.
\<close>

fun rollbackDiffs :: "journal \<Rightarrow> (string \<times> tableDiff) list \<Rightarrow> error option \<times> journal" where
  "rollbackDiffs s [] = (None, s)"
| "rollbackDiffs s ((tableName, tableDiff) # rest) =
     (case map_of (scope s) tableName of
        None \<Rightarrow> (Some TYPE_ERROR, s)
      | Some tableSchema \<Rightarrow>
          (let reverseDiff = tableDiff_getReverse tableDiff
           in rollbackDiffs (updateCache (updateTableIndices s tableSchema reverseDiff) reverseDiff)
                rest))"

definition journal_rollback :: "journal \<Rightarrow> unit result" where
  "journal_rollback s =
     (if terminated s
      then (Inl (ASSERTION ''Attempted to rollback a terminated journal.''), s)
      else (case rollbackDiffs s (tableDiffs s) of
              (Some e, s') \<Rightarrow> (Inl e, s')
            | (None, s') \<Rightarrow> (Inr (), s'\<lparr>terminated := True\<rparr>)))"

section \<open>Example data\<close>

text \<open>
  The schema of the specification's scenarios: table \<^verbatim>\<open>T1\<close> with a primary key,
  and a table \<^verbatim>\<open>T2\<close> without one. An example row projects the same key for
  every index, and every index of an example store holds the same entries.
\<close>

definition exampleRow :: "nat \<Rightarrow> key \<Rightarrow> string \<Rightarrow> row" where
  "exampleRow i k p = \<lparr>row_id = i, payload = p, keyOfIndex = (\<lambda>_. k)\<rparr>"

definition T1 :: table where
  "T1 = \<lparr>table_getName = ''T1'', getPrimaryKey = Some (IndexSchema ''T1.pk''),
         getIndices = [IndexSchema ''T1.pk'']\<rparr>"

definition T2 :: table where
  "T2 = \<lparr>table_getName = ''T2'', getPrimaryKey = None, getIndices = []\<rparr>"

definition exampleStore :: "(key \<times> nat) list \<Rightarrow> indexStore" where
  "exampleStore es ref =
     \<lparr>index_getName = (case ref of Named n \<Rightarrow> n | RowIdIndex t \<Rightarrow> t @ ''.#''),
      entries = es\<rparr>"

definition exampleCache :: "row list \<Rightarrow> cache" where
  "exampleCache rows = map_of (map (\<lambda>r. (row_id r, r)) rows)"

definition J0 :: journal where
  "J0 = Journal [T1] Map.empty (exampleStore [])"

definition J1 :: journal where
  "J1 = Journal [T1, T2] (exampleCache [exampleRow 1 ''1'' ''a'']) (exampleStore [(''1'', 1)])"

definition J12 :: journal where
  "J12 = Journal [T1, T2] (exampleCache [exampleRow 1 ''1'' ''a'', exampleRow 2 ''2'' ''b''])
           (exampleStore [(''1'', 1), (''2'', 2)])"

section \<open>Row-level reading of diffs and states\<close>

text \<open>
  What a table diff says about one row-id, and the merge table and the
  reversal of spec 3 on such entries. A diff is well formed when each of its
  collections has distinct keys, no row-id is in two of them, and every
  image is filed under its own row-id.
\<close>

datatype entry = Absent | Added row | Modified row row | Deleted row

fun ent :: "row option \<Rightarrow> (row \<times> row) option \<Rightarrow> row option \<Rightarrow> entry" where
  "ent (Some r) m d = Added r"
| "ent None (Some m) d = Modified (fst m) (snd m)"
| "ent None None (Some r) = Deleted r"
| "ent None None None = Absent"

definition entryOf :: "tableDiff \<Rightarrow> nat \<Rightarrow> entry" where
  "entryOf d i = ent (map_of (added d) i) (map_of (modified d) i) (map_of (deleted d) i)"

fun merge1 :: "entry \<Rightarrow> entry \<Rightarrow> entry option" where
  "merge1 e Absent = Some e"
| "merge1 Absent e = Some e"
| "merge1 (Added r) (Modified old new) = Some (Added new)"
| "merge1 (Added r) (Deleted x) = Some Absent"
| "merge1 (Modified old1 new1) (Modified old new) = Some (Modified old1 new)"
| "merge1 (Modified old1 new1) (Deleted x) = Some (Deleted old1)"
| "merge1 (Deleted old) (Added new) = Some (if new = old then Absent else Modified old new)"
| "merge1 (Added r) (Added x) = None"
| "merge1 (Modified old1 new1) (Added x) = None"
| "merge1 (Deleted old) (Modified x y) = None"
| "merge1 (Deleted old) (Deleted x) = None"


definition maps_ok ::
  "(nat \<Rightarrow> row option) \<Rightarrow> (nat \<Rightarrow> (row \<times> row) option) \<Rightarrow> (nat \<Rightarrow> row option) \<Rightarrow> bool" where
  "maps_ok A M D \<longleftrightarrow>
     (\<forall>i. (A i = None \<or> M i = None) \<and> (A i = None \<or> D i = None) \<and>
          (M i = None \<or> D i = None) \<and>
          (\<forall>r. A i = Some r \<longrightarrow> row_id r = i) \<and>
          (\<forall>m. M i = Some m \<longrightarrow> row_id (fst m) = i \<and> row_id (snd m) = i) \<and>
          (\<forall>r. D i = Some r \<longrightarrow> row_id r = i))"

definition diff_ok :: "tableDiff \<Rightarrow> bool" where
  "diff_ok d \<longleftrightarrow>
     distinct (map fst (added d)) \<and> distinct (map fst (modified d)) \<and>
     distinct (map fst (deleted d)) \<and>
     maps_ok (map_of (added d)) (map_of (modified d)) (map_of (deleted d))"

text \<open>
  One operation on a diff, read at the row-id \<open>i0\<close> it concerns: the entry there
  is merged with \<open>e\<close>, the others stay.
\<close>

definition stepOK :: "tableDiff \<Rightarrow> tableDiff \<Rightarrow> nat \<Rightarrow> entry \<Rightarrow> bool" where
  "stepOK d d' i0 e \<longleftrightarrow>
     diff_ok d' \<and> merge1 (entryOf d i0) e = Some (entryOf d' i0) \<and>
     (\<forall>i. i \<noteq> i0 \<longrightarrow> entryOf d' i = entryOf d i)"

text \<open>
  What the cache and the indices hold for one row-id: the cached row, and
  for each index the set of keys under which the index lists the id.
\<close>

definition keysAt :: "index \<Rightarrow> nat \<Rightarrow> key set" where
  "keysAt idx i = fst ` set (filter (\<lambda>e. snd e = i) (entries idx))"

type_synonym view = "row option \<times> (indexRef \<Rightarrow> key set)"

definition view :: "journal \<Rightarrow> nat \<Rightarrow> view" where
  "view s i = (cache s i, \<lambda>ref. keysAt (indexStore s ref) i)"

definition indexNames :: "journal \<Rightarrow> indexRef \<Rightarrow> string" where
  "indexNames s ref = index_getName (indexStore s ref)"

text \<open>
  The effect of applying an entry: on the cached row, on the keys one index
  (of the given name) lists for the row-id, and on both for the indices \<open>R\<close>
  of a table.
\<close>

fun cacheEff :: "entry \<Rightarrow> row option \<Rightarrow> row option" where
  "cacheEff Absent c = c"
| "cacheEff (Added r) c = Some r"
| "cacheEff (Modified old new) c = Some new"
| "cacheEff (Deleted r) c = None"

fun keyEff :: "string \<Rightarrow> entry \<Rightarrow> key set \<Rightarrow> key set" where
  "keyEff n Absent ks = ks"
| "keyEff n (Added r) ks = insert (keyOfIndex r n) ks"
| "keyEff n (Modified old new) ks =
     (if keyOfIndex new n \<noteq> keyOfIndex old n
      then insert (keyOfIndex new n) (ks - {keyOfIndex old n}) else ks)"
| "keyEff n (Deleted r) ks = ks - {keyOfIndex r n}"

definition eff :: "(indexRef \<Rightarrow> string) \<Rightarrow> indexRef set \<Rightarrow> entry \<Rightarrow> view \<Rightarrow> view" where
  "eff nm R e v =
     (cacheEff e (fst v), \<lambda>ref. if ref \<in> R then keyEff (nm ref) e (snd v ref) else snd v ref)"






section \<open>Sequences of operations\<close>









section \<open>Basic facts\<close>

lemmas eval_defs = checkScope_def checkPrimaryKeysUnique_def
  checkPrimaryKeyExistence_def checkPrimaryKeyUpdate_def findExistingRowIdInPkIndex_def
  indexStore_get_def index_get_def
  gset_add_def gset_getCount_def emptyDiff_def tableDiff_add_def tableDiff_modify_def
  tableDiff_delete_def applyTableDiff_def
  updateTableIndices_def updateCache_def tableIndexRefs_def diffSnapshot_def updateIndexPair_def
  index_set_def index_remove_def cache_set_def cache_remove_def tableDiff_merge_def
  tableDiff_getReverse_def
  exampleStore_def exampleCache_def exampleRow_def T1_def T2_def setRowId_def Let_def

lemma updateTableIndices_fields [simp]:
  "scope (updateTableIndices s t d) = scope s"
  "cache (updateTableIndices s t d) = cache s"
  "terminated (updateTableIndices s t d) = terminated s"
  "tableDiffs (updateTableIndices s t d) = tableDiffs s"
  by (simp_all add: updateTableIndices_def)

lemma updateCache_fields [simp]:
  "scope (updateCache s d) = scope s"
  "indexStore (updateCache s d) = indexStore s"
  "terminated (updateCache s d) = terminated s"
  "tableDiffs (updateCache s d) = tableDiffs s"
  by (simp_all add: updateCache_def Let_def)

lemma applyTableDiff_outcome:
  "fst (applyTableDiff s t d) = Inr () \<or> fst (applyTableDiff s t d) = Inl INVALID_DIFF"
  by (simp add: applyTableDiff_def Let_def split: option.splits)

lemma applyTableDiff_not_checked:
  assumes "fst (applyTableDiff s t d) = Inl e"
  shows "e = INVALID_DIFF"
  using assms applyTableDiff_outcome [of s t d] by auto

lemma updateRows_error:
  "updateRows s rows d = Inl e \<Longrightarrow> e = TYPE_ERROR \<or> e = INVALID_DIFF"
  by (induction rows arbitrary: d) (auto split: option.splits)


lemma J0_scope: "scope J0 = [(''T1'', T1)]"
  by (simp add: J0_def Journal_def T1_def)

lemma J0_parts:
  "indexStore J0 = exampleStore []" "cache J0 = Map.empty" "tableDiffs J0 = []"
  "terminated J0 = False"
  by (simp_all add: J0_def Journal_def)


lemma J1_parts:
  "indexStore J1 = exampleStore [(''1'', 1)]"
  "cache J1 = exampleCache [exampleRow 1 ''1'' ''a'']"
  "tableDiffs J1 = []" "terminated J1 = False"
  by (simp_all add: J1_def Journal_def)

lemma J12_scope: "scope J12 = [(''T1'', T1), (''T2'', T2)]"
  by (simp add: J12_def Journal_def T1_def T2_def)

lemma J12_parts:
  "indexStore J12 = exampleStore [(''1'', 1), (''2'', 2)]"
  "cache J12 = exampleCache [exampleRow 1 ''1'' ''a'', exampleRow 2 ''2'' ''b'']"
  "tableDiffs J12 = []" "terminated J12 = False"
  by (simp_all add: J12_def Journal_def)


lemma findExisting_no_pk:
  "getPrimaryKey t = None \<Longrightarrow> findExistingRowIdInPkIndex s t r = None"
  by (simp add: findExistingRowIdInPkIndex_def)

section \<open>Failed operations\<close>

text \<open>
  C1. A call of insert, update, insertOrReplace or remove that fails with
  SCOPE_ERROR or CONSTRAINT leaves the journal as it was: the row cache, every
  index and the accumulated per-table diffs (and the scope and the terminated
  flag) are those of the state before the call.
\<close>

theorem failed_mutation_leaves_state:
  assumes "op \<in> {journal_insert, journal_update, journal_insertOrReplace, journal_remove}"
    and "fst (op s t rows) = Inl e"
    and "(\<exists>m. e = SCOPE_ERROR m) \<or> (\<exists>m. e = CONSTRAINT m)"
  shows "snd (op s t rows) = s"
proof -
  have ne: "e \<noteq> INVALID_DIFF" "e \<noteq> TYPE_ERROR" using assms(3) by auto
  consider "op = journal_insert" | "op = journal_update" | "op = journal_insertOrReplace"
    | "op = journal_remove" using assms(1) by auto
  then show ?thesis
  proof cases
    case 1
    then show ?thesis using assms(2) ne
      by (auto simp: journal_insert_def split: option.splits dest: applyTableDiff_not_checked)
  next
    case 2
    then show ?thesis using assms(2) ne
      by (auto simp: journal_update_def split: option.splits sum.splits
          dest: applyTableDiff_not_checked)
  next
    case 3
    then show ?thesis using assms(2) ne
      by (auto simp: journal_insertOrReplace_def split: option.splits sum.splits
          dest: applyTableDiff_not_checked)
  next
    case 4
    then show ?thesis using assms(2) ne
      by (auto simp: journal_remove_def split: option.splits dest: applyTableDiff_not_checked)
  qed
qed

theorem failed_mutation_leaves_state_witness:
  "fst (journal_insert J0 T2 [exampleRow 1 ''1'' ''a'']) =
     Inl (SCOPE_ERROR ''T2 is not in the journal's scope.'') \<and>
   snd (journal_insert J0 T2 [exampleRow 1 ''1'' ''a'']) = J0"
proof -
  have h: "fst (journal_insert J0 T2 [exampleRow 1 ''1'' ''a'']) =
     Inl (SCOPE_ERROR ''T2 is not in the journal's scope.'')"
    by (simp add: journal_insert_def checkScope_def J0_scope T2_def)
  from failed_mutation_leaves_state [of journal_insert, OF _ h] h show ?thesis by simp
qed

section \<open>The terminated flag\<close>

lemma terminal_calls_rejected:
  "terminated s \<Longrightarrow>
   journal_commit s = (Inl (ASSERTION ''Attemptted to commit a terminated journal.''), s) \<and>
   journal_rollback s = (Inl (ASSERTION ''Attempted to rollback a terminated journal.''), s)"
  by (simp add: journal_commit_def journal_rollback_def)

text \<open>
  C3. The claim is that a terminated journal rejects every further operation.
  commit and rollback assert the flag (\<open>terminal_calls_rejected\<close>), but insert,
  update, insertOrReplace and remove never read it: after \<^verbatim>\<open>commit()\<close> on the
  empty journal with scope \<^verbatim>\<open>T1\<close>, inserting a row succeeds and the row is in the
  cache.
\<close>

theorem insert_after_commit_mutates:
  "journal_commit J0 = (Inr (), J0\<lparr>terminated := True\<rparr>) \<and>
   fst (journal_insert (J0\<lparr>terminated := True\<rparr>) T1 [exampleRow 1 ''1'' ''a'']) = Inr () \<and>
   cache (snd (journal_insert (J0\<lparr>terminated := True\<rparr>) T1 [exampleRow 1 ''1'' ''a''])) 1 =
     Some (exampleRow 1 ''1'' ''a'') \<and>
   cache (J0\<lparr>terminated := True\<rparr>) 1 = None"
  by (simp add: journal_commit_def journal_insert_def J0_scope J0_parts eval_defs)

section \<open>Reads\<close>

lemma set_gset_addAll: "set (gset_addAll xs ys) = set xs \<union> set ys"
  unfolding gset_addAll_def
  by (induction ys arbitrary: xs) (auto simp: gset_add_def)

lemma distinct_gset_addAll: "distinct xs \<Longrightarrow> distinct (gset_addAll xs ys)"
  unfolding gset_addAll_def
  by (induction ys arbitrary: xs) (auto simp: gset_add_def)

lemma set_fold_addAll:
  "set (fold (\<lambda>r acc. gset_addAll acc (f r)) rs acc0) = set acc0 \<union> (\<Union>r\<in>set rs. set (f r))"
  by (induction rs arbitrary: acc0) (auto simp: set_gset_addAll)

lemma distinct_fold_addAll:
  "distinct acc0 \<Longrightarrow> distinct (fold (\<lambda>r acc. gset_addAll acc (f r)) rs acc0)"
  by (induction rs arbitrary: acc0) (auto simp: distinct_gset_addAll)

text \<open>
  C7. As a set, the result of getIndexRange is the union over the given key
  ranges of what \<^verbatim>\<open>getRange\<close> yields on the named index of the current index
  store, and the result lists no row-id twice.
\<close>

theorem getIndexRange_union:
  "set (getIndexRange s indexSchema keyRanges) =
     (\<Union>keyRange\<in>set keyRanges.
        set (index_getRange (indexStore_get (indexStore s) (getNormalizedName indexSchema))
               (Some keyRange))) \<and>
   distinct (getIndexRange s indexSchema keyRanges)"
  by (simp add: getIndexRange_def Let_def set_fold_addAll distinct_fold_addAll)

theorem getIndexRange_union_witness:
  "set (getIndexRange J12 (IndexSchema ''T1.pk'') [(\<lambda>k. k = ''1''), (\<lambda>k. True)]) = {1, 2} \<and>
   getIndexRange J12 (IndexSchema ''T1.pk'') [(\<lambda>k. k = ''1''), (\<lambda>k. True)] = [1, 2]"
  using getIndexRange_union [of J12 "IndexSchema ''T1.pk''" "[(\<lambda>k. k = ''1''), (\<lambda>k. True)]"]
  by (simp add: getIndexRange_def gset_addAll_def gset_add_def index_getRange_def
      indexStore_get_def J12_parts exampleStore_def)

text \<open>
  C8. getTableRows and getIndexRange never consult the scope: whatever the
  scope holds, they return the same rows and row-ids, read from the shared
  cache and index store. Their results carry no failure.
\<close>

theorem reads_ignore_scope:
  "getTableRows (s\<lparr>scope := sc\<rparr>) tableName opt_rowIds = getTableRows s tableName opt_rowIds \<and>
   getIndexRange (s\<lparr>scope := sc\<rparr>) indexSchema keyRanges = getIndexRange s indexSchema keyRanges \<and>
   getTableRows s tableName (Some rowIds) = map (cache s) rowIds \<and>
   getTableRows s tableName None =
     map (cache s) (map snd (entries (indexStore s (RowIdIndex tableName))))"
  by (simp add: getTableRows_def getIndexRange_def cache_get_def getRowIdIndex_def
      index_getRange_def split: option.splits)

theorem reads_ignore_scope_witness:
  "map_of (scope J0) ''T2'' = None \<and>
   getTableRows (J12\<lparr>scope := scope J0\<rparr>) ''T2'' None =
     [Some (exampleRow 1 ''1'' ''a''), Some (exampleRow 2 ''2'' ''b'')] \<and>
   getIndexRange (J12\<lparr>scope := scope J0\<rparr>) (IndexSchema ''T2.x'') [\<lambda>k. True] =
     getIndexRange J12 (IndexSchema ''T2.x'') [\<lambda>k. True]"
  using reads_ignore_scope [where s = J12 and sc = "scope J0" and tableName = "''T2''"
      and opt_rowIds = None and indexSchema = "IndexSchema ''T2.x''"
      and keyRanges = "[\<lambda>k. True]" and rowIds = "[]"]
  by (simp add: J0_scope J12_parts exampleStore_def exampleCache_def exampleRow_def)

section \<open>Rollback and the accumulated diffs\<close>

lemma rollbackDiffs_fields:
  "tableDiffs (snd (rollbackDiffs s ds)) = tableDiffs s \<and>
   scope (snd (rollbackDiffs s ds)) = scope s \<and>
   terminated (snd (rollbackDiffs s ds)) = terminated s"
  by (induction s ds rule: rollbackDiffs.induct) (auto simp: Let_def split: option.splits)

text \<open>
  C9. rollback leaves the accumulated per-table diffs (and the scope) as they
  were: after it, getDiff yields the same forward diffs as before.
\<close>

theorem rollback_keeps_diffs:
  "tableDiffs (snd (journal_rollback s)) = tableDiffs s \<and>
   scope (snd (journal_rollback s)) = scope s \<and>
   getDiff (snd (journal_rollback s)) = getDiff s"
  using rollbackDiffs_fields [of s "tableDiffs s"]
  by (auto simp: journal_rollback_def getDiff_def split: prod.splits option.splits)

theorem rollback_keeps_diffs_witness:
  "getDiff (snd (journal_rollback (snd (journal_insert J0 T1 [exampleRow 1 ''1'' ''a''])))) =
     [(''T1'', \<lparr>added = [(1, exampleRow 1 ''1'' ''a'')], modified = [], deleted = []\<rparr>)]"
  using rollback_keeps_diffs [of "snd (journal_insert J0 T1 [exampleRow 1 ''1'' ''a''])"]
  by (simp add: journal_insert_def getDiff_def J0_scope J0_parts eval_defs)

section \<open>Primary-key checks of insert\<close>









section \<open>insertOrReplace\<close>




section \<open>Rollback as a round trip\<close>

subsection \<open>Entries, and diffs read row by row\<close>

lemma eff_fst [simp]: "fst (eff nm R e v) = cacheEff e (fst v)"
  by (simp add: eff_def)

lemma eff_snd [simp]:
  "snd (eff nm R e v) ref = (if ref \<in> R then keyEff (nm ref) e (snd v ref) else snd v ref)"
  by (simp add: eff_def)

lemma eff_Absent [simp]: "eff nm R Absent v = v"
  by (simp add: prod_eq_iff fun_eq_iff)




lemmas alist_simps = AList.update_conv' AList.delete_conv' AList.distinct_update
  AList.distinct_delete

lemma diff_ok_empty: "diff_ok emptyDiff"
  by (simp add: diff_ok_def maps_ok_def emptyDiff_def)



lemma maps_ok_add:
  "maps_ok A M D \<Longrightarrow> M i = None \<Longrightarrow> D i = None \<Longrightarrow> row_id r = i \<Longrightarrow> maps_ok (A(i \<mapsto> r)) M D"
  unfolding maps_ok_def by simp

lemma maps_ok_mod:
  "maps_ok A M D \<Longrightarrow> A i = None \<Longrightarrow> D i = None \<Longrightarrow> row_id (fst m) = i \<Longrightarrow> row_id (snd m) = i \<Longrightarrow>
   maps_ok A (M(i \<mapsto> m)) D"
  unfolding maps_ok_def by auto






lemma maps_ok_at:
  assumes "maps_ok A M D"
  shows "A i = Some r \<Longrightarrow> M i = None \<and> D i = None \<and> row_id r = i"
    and "M i = Some m \<Longrightarrow> A i = None \<and> D i = None \<and> row_id (fst m) = i \<and> row_id (snd m) = i"
    and "D i = Some r \<Longrightarrow> A i = None \<and> M i = None \<and> row_id r = i"
proof -
  have h: "(A i = None \<or> M i = None) \<and> (A i = None \<or> D i = None) \<and>
          (M i = None \<or> D i = None) \<and>
          (\<forall>r. A i = Some r \<longrightarrow> row_id r = i) \<and>
          (\<forall>m. M i = Some m \<longrightarrow> row_id (fst m) = i \<and> row_id (snd m) = i) \<and>
          (\<forall>r. D i = Some r \<longrightarrow> row_id r = i)"
    using assms unfolding maps_ok_def by (rule allE)
  show "A i = Some r \<Longrightarrow> M i = None \<and> D i = None \<and> row_id r = i" using h by auto
  show "M i = Some m \<Longrightarrow> A i = None \<and> D i = None \<and> row_id (fst m) = i \<and> row_id (snd m) = i"
    using h by auto
  show "D i = Some r \<Longrightarrow> A i = None \<and> M i = None \<and> row_id r = i" using h by auto
qed

lemma modify_ids:
  assumes "tableDiff_modify d m = Some d'"
  shows "row_id (snd m) = row_id (fst m)"
  using assms unfolding tableDiff_modify_def Let_def by (simp split: if_splits)

lemma modify_result:
  assumes "tableDiff_modify d m = Some d'"
  shows "(case map_of (added d) (row_id (fst m)) of
            Some x \<Rightarrow> d' = d\<lparr>added := AList.update (row_id (fst m)) (snd m) (added d)\<rparr>
          | None \<Rightarrow>
              (case map_of (modified d) (row_id (fst m)) of
                 Some m1 \<Rightarrow>
                   d' = d\<lparr>modified := AList.update (row_id (fst m)) (fst m1, snd m) (modified d)\<rparr>
               | None \<Rightarrow>
                   map_of (deleted d) (row_id (fst m)) = None \<and>
                   d' = d\<lparr>modified := AList.update (row_id (fst m)) (fst m, snd m) (modified d)\<rparr>))"
proof -
  have e: "row_id (fst m) = row_id (snd m)"
    using assms unfolding tableDiff_modify_def Let_def by (simp split: if_splits)
  show ?thesis
  proof (cases "map_of (added d) (row_id (fst m))")
    case (Some x)
    then show ?thesis using assms e unfolding tableDiff_modify_def Let_def by simp
  next
    case None
    note A = None
    show ?thesis
    proof (cases "map_of (modified d) (row_id (fst m))")
      case (Some m1)
      then show ?thesis using assms e A unfolding tableDiff_modify_def Let_def
        by (cases m1) simp
    next
      case None
      then show ?thesis using assms e A unfolding tableDiff_modify_def Let_def
        by (cases "map_of (deleted d) (row_id (fst m))") simp_all
    qed
  qed
qed

lemma modify_stepOK:
  assumes ok: "diff_ok d" and "tableDiff_modify d m = Some d'"
  shows "stepOK d d' (row_id (fst m)) (Modified (fst m) (snd m))"
proof -
  note res = modify_result [OF assms(2)]
  note mo = ok [unfolded diff_ok_def]
  have mk: "maps_ok (map_of (added d)) (map_of (modified d)) (map_of (deleted d))"
    using mo by simp
  let ?i = "row_id (fst m)"
  have e: "row_id (snd m) = ?i" by (rule modify_ids [OF assms(2)])
  show ?thesis
  proof (cases "map_of (added d) ?i")
    case (Some x)
    then have d': "d' = d\<lparr>added := AList.update ?i (snd m) (added d)\<rparr>" using res by simp
    have at: "map_of (modified d) ?i = None" "map_of (deleted d) ?i = None"
      using maps_ok_at(1) [OF mk Some] by simp_all
    have "diff_ok d'" unfolding d' diff_ok_def using mo at e
      by (simp add: alist_simps maps_ok_add)
    moreover have "entryOf d' i = (if i = ?i then Added (snd m) else entryOf d i)" for i
      unfolding d' entryOf_def by (simp add: alist_simps)
    moreover have "entryOf d ?i = Added x"
      unfolding entryOf_def using Some by simp
    ultimately show ?thesis unfolding stepOK_def by simp
  next
    case None
    note A = None
    show ?thesis
    proof (cases "map_of (modified d) ?i")
      case (Some m1)
      then have d': "d' = d\<lparr>modified := AList.update ?i (fst m1, snd m) (modified d)\<rparr>"
        using res A by simp
      have at: "map_of (deleted d) ?i = None" "row_id (fst m1) = ?i"
        using maps_ok_at(2) [OF mk Some] by simp_all
      have "maps_ok (map_of (added d)) ((map_of (modified d))(?i \<mapsto> (fst m1, snd m)))
              (map_of (deleted d))"
        using mk A at e by (intro maps_ok_mod) simp_all
      then have "diff_ok d'" unfolding d' diff_ok_def using mo
        by (simp add: alist_simps)
      moreover have "entryOf d' i = (if i = ?i then Modified (fst m1) (snd m) else entryOf d i)" for i
        unfolding d' entryOf_def using A by (simp add: alist_simps)
      moreover have "entryOf d ?i = Modified (fst m1) (snd m1)"
        unfolding entryOf_def using A Some by simp
      ultimately show ?thesis unfolding stepOK_def by simp
    next
      case None
      then have D: "map_of (deleted d) ?i = None"
        and d': "d' = d\<lparr>modified := AList.update ?i (fst m, snd m) (modified d)\<rparr>"
        using res A by simp_all
      have "maps_ok (map_of (added d)) ((map_of (modified d))(?i \<mapsto> (fst m, snd m)))
              (map_of (deleted d))"
        using mk A D e by (intro maps_ok_mod) simp_all
      then have "diff_ok d'" unfolding d' diff_ok_def using mo
        by (simp add: alist_simps)
      moreover have "entryOf d' i = (if i = ?i then Modified (fst m) (snd m) else entryOf d i)" for i
        unfolding d' entryOf_def using A by (simp add: alist_simps)
      moreover have "entryOf d ?i = Absent"
        unfolding entryOf_def using A None D by simp
      ultimately show ?thesis unfolding stepOK_def by simp
    qed
  qed
qed





lemma entryOf_Added: "entryOf d i = Added r \<longleftrightarrow> map_of (added d) i = Some r"
  unfolding entryOf_def
  by (cases "map_of (added d) i"; cases "map_of (modified d) i"; cases "map_of (deleted d) i") simp_all

lemma entryOf_Modified:
  assumes "diff_ok d"
  shows "entryOf d i = Modified old new \<longleftrightarrow> map_of (modified d) i = Some (old, new)"
proof -
  have mk: "maps_ok (map_of (added d)) (map_of (modified d)) (map_of (deleted d))"
    using assms unfolding diff_ok_def by simp
  show ?thesis
  proof (cases "map_of (modified d) i")
    case None
    then show ?thesis unfolding entryOf_def
      by (cases "map_of (added d) i"; cases "map_of (deleted d) i") simp_all
  next
    case (Some m)
    then have "map_of (added d) i = None" using maps_ok_at(2) [OF mk Some] by simp
    then show ?thesis unfolding entryOf_def using Some by (cases m) auto
  qed
qed

lemma entryOf_Deleted:
  assumes "diff_ok d"
  shows "entryOf d i = Deleted r \<longleftrightarrow> map_of (deleted d) i = Some r"
proof -
  have mk: "maps_ok (map_of (added d)) (map_of (modified d)) (map_of (deleted d))"
    using assms unfolding diff_ok_def by simp
  show ?thesis
  proof (cases "map_of (deleted d) i")
    case None
    then show ?thesis unfolding entryOf_def
      by (cases "map_of (added d) i"; cases "map_of (modified d) i") simp_all
  next
    case (Some x)
    then have "map_of (added d) i = None" "map_of (modified d) i = None"
      using maps_ok_at(3) [OF mk Some] by simp_all
    then show ?thesis unfolding entryOf_def using Some by auto
  qed
qed


lemma entryOf_row_id:
  assumes "diff_ok d"
  shows "entryOf d i = Added r \<Longrightarrow> row_id r = i"
    and "entryOf d i = Modified old new \<Longrightarrow> row_id old = i \<and> row_id new = i"
    and "entryOf d i = Deleted r \<Longrightarrow> row_id r = i"
proof -
  have mk: "maps_ok (map_of (added d)) (map_of (modified d)) (map_of (deleted d))"
    using assms unfolding diff_ok_def by simp
  show "entryOf d i = Added r \<Longrightarrow> row_id r = i"
    using maps_ok_at(1) [OF mk] by (simp add: entryOf_Added)
  show "entryOf d i = Modified old new \<Longrightarrow> row_id old = i \<and> row_id new = i"
    using maps_ok_at(2) [OF mk, of i "(old, new)"] by (simp add: entryOf_Modified [OF assms])
  show "entryOf d i = Deleted r \<Longrightarrow> row_id r = i"
    using maps_ok_at(3) [OF mk] by (simp add: entryOf_Deleted [OF assms])
qed

lemma distinct_map_of_mem:
  "distinct (map fst al) \<Longrightarrow> (k, v) \<in> set al \<longleftrightarrow> map_of al k = Some v"
  by simp







subsection \<open>Applying a diff, read row by row\<close>





lemma name_remove [simp]: "index_getName (index_remove idx k j) = index_getName idx"
  by (simp add: index_remove_def)

lemma name_set [simp]: "index_getName (index_set idx k j) = index_getName idx"
  by (simp add: index_set_def)

lemma name_updateIndexPair [simp]: "index_getName (updateIndexPair idx p) = index_getName idx"
  by (cases p) (auto simp: updateIndexPair_def Let_def split: option.splits)









subsection \<open>What the journal keeps true\<close>



lemma view_tableDiffs [simp]: "view (s\<lparr>tableDiffs := x\<rparr>) i = view s i"
  by (simp add: view_def)

lemma indexNames_tableDiffs [simp]: "indexNames (s\<lparr>tableDiffs := x\<rparr>) = indexNames s"
  by (simp add: indexNames_def fun_eq_iff)










lemma applyTableDiff_terminated [simp]:
  "terminated (snd (applyTableDiff s t d)) = terminated s"
  by (simp add: applyTableDiff_def Let_def split: option.splits)





subsection \<open>Rollback\<close>








section \<open>Primary-key check of update\<close>

lemma modify_keeps_deleted:
  assumes "tableDiff_modify e m = Some e'"
  shows "deleted e' = deleted e"
  using modify_result [OF assms]
  by (cases "map_of (added e) (row_id (fst m))"; cases "map_of (modified e) (row_id (fst m))") auto

lemma modify_defined:
  assumes "row_id (fst m) = row_id (snd m)" and "map_of (deleted e) (row_id (fst m)) = None"
  shows "tableDiff_modify e m \<noteq> None"
  using assms unfolding tableDiff_modify_def Let_def
  by (cases "map_of (added e) (row_id (fst m))"; cases "map_of (modified e) (row_id (fst m))") auto

lemma foldDiff_modify_defined:
  assumes "\<And>m. m \<in> set ms \<Longrightarrow>
             row_id (fst m) = row_id (snd m) \<and> map_of (deleted e) (row_id (fst m)) = None"
  shows "foldDiff tableDiff_modify ms e \<noteq> None"
  using assms
proof (induction ms arbitrary: e)
  case Nil
  then show ?case by simp
next
  case (Cons m ms)
  have ab: "row_id (fst m) = row_id (snd m) \<and> map_of (deleted e) (row_id (fst m)) = None"
    by (rule Cons.prems) simp
  have a: "row_id (fst m) = row_id (snd m)" using ab by (rule conjunct1)
  have b: "map_of (deleted e) (row_id (fst m)) = None" using ab by (rule conjunct2)
  have "tableDiff_modify e m \<noteq> None" using a b by (rule modify_defined)
  then obtain e' where e': "tableDiff_modify e m = Some e'" by blast
  have "foldDiff tableDiff_modify ms e' \<noteq> None"
  proof (rule Cons.IH)
    fix x assume x: "x \<in> set ms"
    have "row_id (fst x) = row_id (snd x) \<and> map_of (deleted e) (row_id (fst x)) = None"
      by (rule Cons.prems) (simp add: x)
    then show "row_id (fst x) = row_id (snd x) \<and> map_of (deleted e') (row_id (fst x)) = None"
      unfolding modify_keeps_deleted [OF e'] .
  qed
  then show ?case using e' by simp
qed

lemma updateRows_defined:
  assumes "\<And>r. r \<in> set rows \<Longrightarrow> \<exists>old. cache s (row_id r) = Some old \<and> row_id old = row_id r"
    and "diff_ok e" and "added e = []" and "deleted e = []"
    and "fst ` set (modified e) \<subseteq> I"
  shows "\<exists>d. updateRows s rows e = Inr d \<and> diff_ok d \<and> added d = [] \<and> deleted d = [] \<and>
             fst ` set (modified d) \<subseteq> I \<union> row_id ` set rows"
  using assms
proof (induction rows arbitrary: e I)
  case Nil
  then show ?case by auto
next
  case (Cons r rows)
  from Cons.prems(1) [of r] obtain old where
    c: "cache s (row_id r) = Some old" and i: "row_id old = row_id r" by auto
  have "tableDiff_modify e (old, r) \<noteq> None"
  proof (rule modify_defined)
    show "row_id (fst (old, r)) = row_id (snd (old, r))" using i by simp
    show "map_of (deleted e) (row_id (fst (old, r))) = None" using Cons.prems(4) by simp
  qed
  then obtain e' where e': "tableDiff_modify e (old, r) = Some e'" by blast
  have ok': "diff_ok e'" using modify_stepOK [OF Cons.prems(2) e'] unfolding stepOK_def by simp
  have del': "deleted e' = []" using modify_keeps_deleted [OF e'] Cons.prems(4) by simp
  have res: "added e' = [] \<and> modified e' = AList.update (row_id old) (fst (the (map_of (modified e) (row_id old))), r) (modified e) \<or>
             added e' = [] \<and> modified e' = AList.update (row_id old) (old, r) (modified e)"
    using modify_result [OF e'] Cons.prems(3)
    by (cases "map_of (modified e) (row_id old)") auto
  then have add': "added e' = []" by auto
  from res obtain v where "modified e' = AList.update (row_id old) v (modified e)" by blast
  then have "fst ` set (modified e') = {row_id old} \<union> fst ` set (modified e)"
    by (simp only: AList.dom_update)
  then have keys': "fst ` set (modified e') \<subseteq> insert (row_id r) I"
    using Cons.prems(5) i by auto
  have "\<exists>d. updateRows s rows e' = Inr d \<and> diff_ok d \<and> added d = [] \<and> deleted d = [] \<and>
             fst ` set (modified d) \<subseteq> insert (row_id r) I \<union> row_id ` set rows"
    using Cons.prems(1) ok' add' del' keys' by (intro Cons.IH) simp_all
  then show ?case using c e' by auto
qed

lemma update_succeeds:
  assumes sc: "checkScope s t = None" and ck: "checkPrimaryKeyUpdate s t rows = None"
    and ca: "\<And>r. r \<in> set rows \<Longrightarrow> \<exists>old. cache s (row_id r) = Some old \<and> row_id old = row_id r"
    and nd: "\<And>acc r. map_of (tableDiffs s) (table_getName t) = Some acc \<Longrightarrow> r \<in> set rows \<Longrightarrow>
               map_of (deleted acc) (row_id r) = None"
  shows "fst (journal_update s t rows) = Inr ()"
proof -
  let ?acc = "case map_of (tableDiffs s) (table_getName t) of Some acc \<Rightarrow> acc | None \<Rightarrow> emptyDiff"
  have "\<exists>d. updateRows s rows emptyDiff = Inr d \<and> diff_ok d \<and> added d = [] \<and> deleted d = [] \<and>
             fst ` set (modified d) \<subseteq> {} \<union> row_id ` set rows"
    using ca by (intro updateRows_defined) (simp_all add: diff_ok_empty, simp_all add: emptyDiff_def)
  then obtain d where d: "updateRows s rows emptyDiff = Inr d" and ok: "diff_ok d"
    and ad: "added d = []" and de: "deleted d = []"
    and ks: "fst ` set (modified d) \<subseteq> row_id ` set rows" by auto
  have accdel: "map_of (deleted ?acc) (row_id r) = None" if "r \<in> set rows" for r
    using nd that by (cases "map_of (tableDiffs s) (table_getName t)") (simp_all add: emptyDiff_def)
  have mk: "maps_ok (map_of (added d)) (map_of (modified d)) (map_of (deleted d))"
    and di: "distinct (map fst (modified d))"
    using ok unfolding diff_ok_def by simp_all
  have "foldDiff tableDiff_modify (map snd (modified d)) ?acc \<noteq> None"
  proof (rule foldDiff_modify_defined)
    fix m assume "m \<in> set (map snd (modified d))"
    then obtain j where j: "(j, m) \<in> set (modified d)" by auto
    then have mo: "map_of (modified d) j = Some m" using di by simp
    have ids: "row_id (fst m) = j" "row_id (snd m) = j" using maps_ok_at(2) [OF mk mo] by simp_all
    have "j \<in> row_id ` set rows" using j ks by force
    then obtain r where r: "r \<in> set rows" "row_id r = j" by auto
    have "map_of (deleted ?acc) j = None" using accdel [OF r(1)] unfolding r(2) .
    then show "row_id (fst m) = row_id (snd m) \<and> map_of (deleted ?acc) (row_id (fst m)) = None"
      using ids by simp
  qed
  then obtain y where y: "foldDiff tableDiff_modify (map snd (modified d)) ?acc = Some y" by blast
  have "tableDiff_merge ?acc d = Some y"
    unfolding tableDiff_merge_def ad de using y by simp
  then have "tableDiff_merge ?acc d \<noteq> None" by simp
  then have "fst (applyTableDiff s t d) = Inr ()"
    unfolding applyTableDiff_def Let_def by (auto split: option.splits)
  then show ?thesis using sc ck d by (simp add: journal_update_def)
qed

lemma update_no_constraint_after_check:
  assumes "checkScope s t = None" and "checkPrimaryKeyUpdate s t rows = None"
  shows "journal_update s t rows =
           (case updateRows s rows emptyDiff of
              Inl e \<Rightarrow> (Inl e, s)
            | Inr d \<Rightarrow> applyTableDiff s t d)"
    and "fst (journal_update s t rows) \<noteq> Inl (CONSTRAINT m)"
proof -
  show eq: "journal_update s t rows =
           (case updateRows s rows emptyDiff of
              Inl e \<Rightarrow> (Inl e, s)
            | Inr d \<Rightarrow> applyTableDiff s t d)"
    using assms by (simp add: journal_update_def)
  show "fst (journal_update s t rows) \<noteq> Inl (CONSTRAINT m)"
  proof (cases "updateRows s rows emptyDiff")
    case (Inl e)
    then show ?thesis using eq updateRows_error [OF Inl] by auto
  next
    case (Inr d)
    then show ?thesis using eq applyTableDiff_not_checked [of s t d "CONSTRAINT m"] by auto
  qed
qed

lemma checkPrimaryKeyUpdate_cases:
  "checkPrimaryKeyUpdate s t rows =
     (if \<forall>r\<in>set rows. findExistingRowIdInPkIndex s t r = Some (row_id r) then None
      else if length rows > 1
        then Some (CONSTRAINT (''Primary key violation when updating rows for '' @
               table_getName t))
      else checkPrimaryKeyExistence s t [hd rows])"
  by (cases rows) (auto simp: checkPrimaryKeyUpdate_def Let_def list_ex_iff)

text \<open>
  C4 (as amended). For an update of a table in scope that declares a primary
  key, where a row changes its primary key when the primary-key index does
  not hold its key under its own row-id: if no row changes its key, no
  CONSTRAINT is raised, the call goes on to record the modifications, and
  it succeeds when the cache holds a row under each row's id (with that id)
  and the table's accumulated diff holds none of these ids as deleted; if
  some row changes its key and the batch has more than one row, the call
  fails with CONSTRAINT, whatever the index holds; if the batch is one row
  that changes its key, the call fails with CONSTRAINT, naming the key and
  the table, when the index already holds that key, and raises no CONSTRAINT
  otherwise.
\<close>

theorem update_primary_key_check:
  assumes "checkScope s t = None" and "getPrimaryKey t = Some pk"
  shows "((\<forall>r\<in>set rows. findExistingRowIdInPkIndex s t r = Some (row_id r)) \<longrightarrow>
            (\<forall>m. fst (journal_update s t rows) \<noteq> Inl (CONSTRAINT m)) \<and>
            journal_update s t rows =
              (case updateRows s rows emptyDiff of
                 Inl e \<Rightarrow> (Inl e, s)
               | Inr d \<Rightarrow> applyTableDiff s t d) \<and>
            ((\<forall>r\<in>set rows. \<exists>oldRow. cache s (row_id r) = Some oldRow \<and> row_id oldRow = row_id r) \<and>
             (\<forall>acc. map_of (tableDiffs s) (table_getName t) = Some acc \<longrightarrow>
                (\<forall>r\<in>set rows. map_of (deleted acc) (row_id r) = None)) \<longrightarrow>
               fst (journal_update s t rows) = Inr ())) \<and>
         ((\<exists>r\<in>set rows. findExistingRowIdInPkIndex s t r \<noteq> Some (row_id r)) \<and>
          length rows > 1 \<longrightarrow>
            journal_update s t rows =
              (Inl (CONSTRAINT (''Primary key violation when updating rows for '' @
                 table_getName t)), s)) \<and>
         (findExistingRowIdInPkIndex s t r \<noteq> Some (row_id r) \<longrightarrow>
            (findExistingRowIdInPkIndex s t r \<noteq> None \<longrightarrow>
               journal_update s t [r] =
                 (Inl (CONSTRAINT (''A row with primary key '' @
                    keyOfIndex r (getNormalizedName pk) @ '' already exists  in table '' @
                    table_getName t)), s)) \<and>
            (findExistingRowIdInPkIndex s t r = None \<longrightarrow>
               (\<forall>m. fst (journal_update s t [r]) \<noteq> Inl (CONSTRAINT m)) \<and>
               journal_update s t [r] =
                 (case updateRows s [r] emptyDiff of
                    Inl e \<Rightarrow> (Inl e, s)
                  | Inr d \<Rightarrow> applyTableDiff s t d)))"
proof (intro conjI impI)
  assume a: "\<forall>r\<in>set rows. findExistingRowIdInPkIndex s t r = Some (row_id r)"
  then have c: "checkPrimaryKeyUpdate s t rows = None"
    by (simp add: checkPrimaryKeyUpdate_cases)
  show "\<forall>m. fst (journal_update s t rows) \<noteq> Inl (CONSTRAINT m)"
    using update_no_constraint_after_check(2) [OF assms(1) c] by blast
  show "journal_update s t rows =
              (case updateRows s rows emptyDiff of
                 Inl e \<Rightarrow> (Inl e, s)
               | Inr d \<Rightarrow> applyTableDiff s t d)"
    by (rule update_no_constraint_after_check(1) [OF assms(1) c])
  assume h: "(\<forall>r\<in>set rows. \<exists>oldRow. cache s (row_id r) = Some oldRow \<and> row_id oldRow = row_id r) \<and>
             (\<forall>acc. map_of (tableDiffs s) (table_getName t) = Some acc \<longrightarrow>
                (\<forall>r\<in>set rows. map_of (deleted acc) (row_id r) = None))"
  show "fst (journal_update s t rows) = Inr ()"
  proof (rule update_succeeds [OF assms(1) c])
    show "\<exists>old. cache s (row_id r) = Some old \<and> row_id old = row_id r" if "r \<in> set rows" for r
      using h that by blast
    show "map_of (deleted acc) (row_id r) = None"
      if "map_of (tableDiffs s) (table_getName t) = Some acc" "r \<in> set rows" for acc r
      using h that by blast
  qed
next
  assume "(\<exists>r\<in>set rows. findExistingRowIdInPkIndex s t r \<noteq> Some (row_id r)) \<and>
          length rows > 1"
  then show "journal_update s t rows =
              (Inl (CONSTRAINT (''Primary key violation when updating rows for '' @
                 table_getName t)), s)"
    using assms(1) by (auto simp: journal_update_def checkPrimaryKeyUpdate_cases)
next
  assume "findExistingRowIdInPkIndex s t r \<noteq> Some (row_id r)"
    and "findExistingRowIdInPkIndex s t r \<noteq> None"
  then show "journal_update s t [r] =
                 (Inl (CONSTRAINT (''A row with primary key '' @
                    keyOfIndex r (getNormalizedName pk) @ '' already exists  in table '' @
                    table_getName t)), s)"
    using assms
    by (simp add: journal_update_def checkPrimaryKeyUpdate_cases checkPrimaryKeyExistence_def)
next
  assume "findExistingRowIdInPkIndex s t r \<noteq> Some (row_id r)"
    and "findExistingRowIdInPkIndex s t r = None"
  then have c: "checkPrimaryKeyUpdate s t [r] = None"
    using assms(2) by (simp add: checkPrimaryKeyUpdate_cases checkPrimaryKeyExistence_def)
  show "\<forall>m. fst (journal_update s t [r]) \<noteq> Inl (CONSTRAINT m)"
    using update_no_constraint_after_check(2) [OF assms(1) c] by blast
  show "journal_update s t [r] =
                 (case updateRows s [r] emptyDiff of
                    Inl e \<Rightarrow> (Inl e, s)
                  | Inr d \<Rightarrow> applyTableDiff s t d)"
    by (rule update_no_constraint_after_check(1) [OF assms(1) c])
qed

text \<open>
  C4 as stated fails: in a batch of two rows of which exactly one changes its
  key, to a key that no row holds, the call fails with CONSTRAINT.
\<close>

theorem update_one_changed_counterexample:
  "findExistingRowIdInPkIndex J12 T1 (exampleRow 1 ''3'' ''a'') = None \<and>
   findExistingRowIdInPkIndex J12 T1 (exampleRow 2 ''2'' ''b'') = Some 2 \<and>
   journal_update J12 T1 [exampleRow 1 ''3'' ''a'', exampleRow 2 ''2'' ''b''] =
     (Inl (CONSTRAINT ''Primary key violation when updating rows for T1''), J12)"
  by (simp add: journal_update_def J12_scope J12_parts eval_defs)

theorem update_primary_key_check_witness:
  "journal_update J12 T1 [exampleRow 1 ''2'' ''a''] =
     (Inl (CONSTRAINT ''A row with primary key 2 already exists  in table T1''), J12) \<and>
   journal_update J12 T1 [exampleRow 1 ''3'' ''a'', exampleRow 2 ''3'' ''b''] =
     (Inl (CONSTRAINT ''Primary key violation when updating rows for T1''), J12) \<and>
   journal_update J12 T1 [exampleRow 1 ''1'' ''z'', exampleRow 2 ''2'' ''y''] =
     (case updateRows J12 [exampleRow 1 ''1'' ''z'', exampleRow 2 ''2'' ''y''] emptyDiff of
        Inl e \<Rightarrow> (Inl e, J12)
      | Inr d \<Rightarrow> applyTableDiff J12 T1 d) \<and>
   fst (journal_update J12 T1 [exampleRow 1 ''1'' ''z'', exampleRow 2 ''2'' ''y'']) = Inr ()"
proof -
  have sc: "checkScope J12 T1 = None" by (simp add: checkScope_def J12_scope T1_def)
  have pk: "getPrimaryKey T1 = Some (IndexSchema ''T1.pk'')" by (simp add: T1_def)
  note th = update_primary_key_check [OF sc pk]
  have f: "findExistingRowIdInPkIndex J12 T1 (exampleRow 1 ''2'' ''a'') = Some 2"
    "findExistingRowIdInPkIndex J12 T1 (exampleRow 1 ''3'' ''a'') = None"
    "findExistingRowIdInPkIndex J12 T1 (exampleRow 2 ''3'' ''b'') = None"
    "findExistingRowIdInPkIndex J12 T1 (exampleRow 1 ''1'' ''z'') = Some 1"
    "findExistingRowIdInPkIndex J12 T1 (exampleRow 2 ''2'' ''y'') = Some 2"
    by (simp_all add: J12_parts eval_defs)
  have a: "journal_update J12 T1 [exampleRow 1 ''2'' ''a''] =
     (Inl (CONSTRAINT ''A row with primary key 2 already exists  in table T1''), J12)"
    using th [where r = "exampleRow 1 ''2'' ''a''" and rows = "[]"] f
    by (simp add: exampleRow_def T1_def)
  have b: "journal_update J12 T1 [exampleRow 1 ''3'' ''a'', exampleRow 2 ''3'' ''b''] =
     (Inl (CONSTRAINT ''Primary key violation when updating rows for T1''), J12)"
    using th [where r = "exampleRow 1 ''3'' ''a''"
        and rows = "[exampleRow 1 ''3'' ''a'', exampleRow 2 ''3'' ''b'']"] f
    by (simp add: exampleRow_def T1_def)
  let ?rows = "[exampleRow 1 ''1'' ''z'', exampleRow 2 ''2'' ''y'']"
  have same: "\<forall>r\<in>set ?rows. findExistingRowIdInPkIndex J12 T1 r = Some (row_id r)"
    using f by (simp add: exampleRow_def)
  have held: "(\<forall>r\<in>set ?rows. \<exists>oldRow. cache J12 (row_id r) = Some oldRow \<and> row_id oldRow = row_id r) \<and>
             (\<forall>acc. map_of (tableDiffs J12) (table_getName T1) = Some acc \<longrightarrow>
                (\<forall>r\<in>set ?rows. map_of (deleted acc) (row_id r) = None))"
    by (simp add: J12_parts exampleCache_def exampleRow_def)
  have c: "journal_update J12 T1 ?rows =
     (case updateRows J12 ?rows emptyDiff of
        Inl e \<Rightarrow> (Inl e, J12)
      | Inr d \<Rightarrow> applyTableDiff J12 T1 d)"
    using th [where r = "exampleRow 1 ''3'' ''a''" and rows = ?rows] same by blast
  have d: "fst (journal_update J12 T1 ?rows) = Inr ()"
    using th [where r = "exampleRow 1 ''3'' ''a''" and rows = ?rows] same held by blast
  from a b c d show ?thesis by blast
qed

section \<open>Update of a table without primary key\<close>

lemma tableDiff_modify_empty:
  "row_id old = row_id r \<Longrightarrow>
   tableDiff_modify emptyDiff (old, r) =
     Some \<lparr>added = [], modified = [(row_id r, (old, r))], deleted = []\<rparr>"
  by (simp add: tableDiff_modify_def emptyDiff_def Let_def)

lemma merge_single_modify:
  "tableDiff_merge acc \<lparr>added = [], modified = [(i, m)], deleted = []\<rparr> = tableDiff_modify acc m"
  by (simp add: tableDiff_merge_def split: option.splits)

lemma tableDiff_modify_valid:
  "row_id old = row_id r \<Longrightarrow> map_of (deleted acc) (row_id r) = None \<Longrightarrow>
   tableDiff_modify acc (old, r) \<noteq> None"
  by (auto simp: tableDiff_modify_def Let_def split: option.splits)

text \<open>
  C10 (as amended). For a table in scope that declares no primary key, an
  update with two or more rows fails with CONSTRAINT. An update with a single
  row never fails with CONSTRAINT; it succeeds when the cache holds a row
  under the row's id, with that id, and the table's accumulated diff does not
  hold the id as deleted.
\<close>

theorem update_without_primary_key:
  assumes "checkScope s t = None" and "getPrimaryKey t = None"
  shows "(length rows \<ge> 2 \<longrightarrow>
            journal_update s t rows =
              (Inl (CONSTRAINT (''Primary key violation when updating rows for '' @
                 table_getName t)), s)) \<and>
         (\<forall>m. fst (journal_update s t [r]) \<noteq> Inl (CONSTRAINT m)) \<and>
         (cache s (row_id r) = Some oldRow \<and> row_id oldRow = row_id r \<and>
          (\<forall>acc. map_of (tableDiffs s) (table_getName t) = Some acc \<longrightarrow>
             map_of (deleted acc) (row_id r) = None) \<longrightarrow>
            fst (journal_update s t [r]) = Inr ())"
proof (intro conjI impI)
  assume l: "length rows \<ge> 2"
  then have "rows \<noteq> []" by auto
  then have "\<not> (\<forall>r\<in>set rows. findExistingRowIdInPkIndex s t r = Some (row_id r))"
    using assms(2) by (cases rows) (auto simp: findExisting_no_pk)
  then show "journal_update s t rows =
              (Inl (CONSTRAINT (''Primary key violation when updating rows for '' @
                 table_getName t)), s)"
    using assms(1) l by (auto simp: journal_update_def checkPrimaryKeyUpdate_cases)
next
  have c: "checkPrimaryKeyUpdate s t [r] = None"
    using assms(2) by (simp add: checkPrimaryKeyUpdate_cases checkPrimaryKeyExistence_def)
  show "\<forall>m. fst (journal_update s t [r]) \<noteq> Inl (CONSTRAINT m)"
    using update_no_constraint_after_check(2) [OF assms(1) c] by blast
  assume h: "cache s (row_id r) = Some oldRow \<and> row_id oldRow = row_id r \<and>
          (\<forall>acc. map_of (tableDiffs s) (table_getName t) = Some acc \<longrightarrow>
             map_of (deleted acc) (row_id r) = None)"
  let ?d = "\<lparr>added = [], modified = [(row_id r, (oldRow, r))], deleted = []\<rparr>"
  let ?acc = "case map_of (tableDiffs s) (table_getName t) of Some acc \<Rightarrow> acc | None \<Rightarrow> emptyDiff"
  have u: "updateRows s [r] emptyDiff = Inr ?d"
    using h by (simp add: tableDiff_modify_empty)
  have "map_of (deleted ?acc) (row_id r) = None"
    using h by (auto simp: emptyDiff_def split: option.splits)
  then have "tableDiff_modify ?acc (oldRow, r) \<noteq> None"
    using h tableDiff_modify_valid by blast
  then have "fst (applyTableDiff s t ?d) = Inr ()"
    by (auto simp: applyTableDiff_def Let_def merge_single_modify split: option.splits)
  then show "fst (journal_update s t [r]) = Inr ()"
    using update_no_constraint_after_check(1) [OF assms(1) c] u by simp
qed

text \<open>
  C10 as stated fails: a single-row update of a row that the cache does not
  hold fails, with the state unchanged.
\<close>

theorem update_single_row_counterexample:
  "checkScope J12 T2 = None \<and> getPrimaryKey T2 = None \<and>
   journal_update J12 T2 [exampleRow 5 ''5'' ''e''] = (Inl TYPE_ERROR, J12)"
  by (simp add: journal_update_def J12_scope J12_parts eval_defs)

theorem update_without_primary_key_witness:
  "journal_update J12 T2 [exampleRow 1 ''1'' ''z'', exampleRow 2 ''2'' ''y''] =
     (Inl (CONSTRAINT ''Primary key violation when updating rows for T2''), J12) \<and>
   fst (journal_update J12 T2 [exampleRow 1 ''1'' ''z'']) = Inr ()"
proof -
  have sc: "checkScope J12 T2 = None" by (simp add: checkScope_def J12_scope T2_def)
  have pk: "getPrimaryKey T2 = None" by (simp add: T2_def)
  note th = update_without_primary_key [OF sc pk]
  have a: "journal_update J12 T2 [exampleRow 1 ''1'' ''z'', exampleRow 2 ''2'' ''y''] =
     (Inl (CONSTRAINT ''Primary key violation when updating rows for T2''), J12)"
    using th [where rows = "[exampleRow 1 ''1'' ''z'', exampleRow 2 ''2'' ''y'']"]
    by (simp add: T2_def)
  have b: "fst (journal_update J12 T2 [exampleRow 1 ''1'' ''z'']) = Inr ()"
    using th [where r = "exampleRow 1 ''1'' ''z''" and oldRow = "exampleRow 1 ''1'' ''a''"
        and rows = "[]"]
    by (simp add: J12_parts exampleCache_def exampleRow_def)
  from a b show ?thesis by simp
qed

end
